theory Spec2Isabelle
  imports Complex_Main
begin

section \<open>Quantities with units\<close>

text \<open>
  The module computes with quantities of a units library: a numeric magnitude tagged with
  a product of named units. The magnitudes are Python numbers; they are modelled as
  \<^typ>\<open>real\<close>, so all arithmetic is exact: this is the arithmetic of magnitudes of
  arbitrary precision, which the quantities admit as well as floats. With floats every
  operation rounds and a result may leave the range of the floats; neither has a
  counterpart here, and a statement below about the value of a magnitude is a statement
  in exact arithmetic.

  A unit expression is the vector of the exponents of the unit names that the module
  writes: \<^verbatim>\<open>dollars\<close>, \<^verbatim>\<open>year\<close>, \<^verbatim>\<open>month\<close>,
  \<^verbatim>\<open>percent\<close> and \<^verbatim>\<open>dp\<close>. A unit whose exponent becomes zero in a product
  disappears from the expression, as it does in the library.
\<close>

datatype units = Units (dollars_exp: int) (year_exp: int) (month_exp: int)
  (percent_exp: int) (dp_exp: int)

definition dimensionless :: units where
  "dimensionless = Units 0 0 0 0 0"

definition dollars :: units where
  "dollars = Units 1 0 0 0 0"

definition year :: units where
  "year = Units 0 1 0 0 0"

definition month :: units where
  "month = Units 0 0 1 0 0"

definition percent :: units where
  "percent = Units 0 0 0 1 0"

definition dp :: units where
  "dp = Units 0 0 0 0 1"

fun umul :: "units \<Rightarrow> units \<Rightarrow> units" where
  "umul (Units a b c d e) (Units a' b' c' d' e') =
     Units (a + a') (b + b') (c + c') (d + d') (e + e')"

fun udiv :: "units \<Rightarrow> units \<Rightarrow> units" where
  "udiv (Units a b c d e) (Units a' b' c' d' e') =
     Units (a - a') (b - b') (c - c') (d - d') (e - e')"

text \<open>
  Modelled from the spec: the unit-definition file \<^verbatim>\<open>units.txt\<close>, which declares
  \<^verbatim>\<open>dollars\<close> and \<^verbatim>\<open>dp\<close>, is not part of the sources. Following the
  specification, \<^verbatim>\<open>dollars\<close> is the unit of a dimension of its own (money) and
  \<^verbatim>\<open>dp\<close> (discount point) the unit of another one. \<^verbatim>\<open>percent\<close> is the
  dimensionless unit of scale 1/100 that the module defines itself, and a year is twelve
  months.

  The dimensionality of a unit expression is the triple of its exponents of money, time
  and discount points; its scale is the factor that converts a magnitude to the root
  units (dollars, months, discount points, plain numbers).
\<close>

fun dimensionality :: "units \<Rightarrow> int \<times> int \<times> int" where
  "dimensionality (Units a b c d e) = (a, b + c, e)"

fun scale :: "units \<Rightarrow> real" where
  "scale (Units a b c d e) = 12 powi b * (1 / 100) powi d"

datatype quantity = Q (magnitude: real) (units: units)

datatype error = DimensionalityError | ZeroDivisionError

text \<open>Sequencing of computations that may raise: the first exception is the result.\<close>

fun and_then :: "error + 'a \<Rightarrow> ('a \<Rightarrow> error + 'b) \<Rightarrow> error + 'b" where
  "and_then (Inl e) f = Inl e"
| "and_then (Inr x) f = f x"

text \<open>The magnitude of a quantity in root units.\<close>

definition to_root_units :: "quantity \<Rightarrow> real" where
  "to_root_units q = magnitude q * scale (units q)"

text \<open>\<^verbatim>\<open>q.to(u)\<close>: conversion to a unit of the same dimensionality.\<close>

definition q_to :: "quantity \<Rightarrow> units \<Rightarrow> error + quantity" where
  "q_to q u =
     (if dimensionality (units q) = dimensionality u
      then Inr (Q (magnitude q * scale (units q) / scale u) u)
      else Inl DimensionalityError)"

text \<open>
  \<^verbatim>\<open>a + b\<close> and \<^verbatim>\<open>a - b\<close>: the dimensionalities must agree, the second operand
  is converted to the units of the first, and the result has the units of the first.
\<close>

definition q_add :: "quantity \<Rightarrow> quantity \<Rightarrow> error + quantity" where
  "q_add a b =
     and_then (q_to b (units a)) (\<lambda>b'. Inr (Q (magnitude a + magnitude b') (units a)))"

definition q_sub :: "quantity \<Rightarrow> quantity \<Rightarrow> error + quantity" where
  "q_sub a b =
     and_then (q_to b (units a)) (\<lambda>b'. Inr (Q (magnitude a - magnitude b') (units a)))"

text \<open>
  \<^verbatim>\<open>a * b\<close> of two quantities multiplies the magnitudes and the unit expressions,
  without any conversion; \<^verbatim>\<open>a * x\<close> and \<^verbatim>\<open>a / x\<close> with a plain number
  \<open>x\<close> keep the units. Division by a zero number raises.
\<close>

definition q_mul :: "quantity \<Rightarrow> quantity \<Rightarrow> quantity" where
  "q_mul a b = Q (magnitude a * magnitude b) (umul (units a) (units b))"

definition q_div :: "quantity \<Rightarrow> quantity \<Rightarrow> error + quantity" where
  "q_div a b =
     (if magnitude b = 0 then Inl ZeroDivisionError
      else Inr (Q (magnitude a / magnitude b) (udiv (units a) (units b))))"

definition q_mul_number :: "quantity \<Rightarrow> real \<Rightarrow> quantity" where
  "q_mul_number a x = Q (magnitude a * x) (units a)"

definition q_div_number :: "quantity \<Rightarrow> real \<Rightarrow> error + quantity" where
  "q_div_number a x =
     (if x = 0 then Inl ZeroDivisionError else Inr (Q (magnitude a / x) (units a)))"

text \<open>
  \<^verbatim>\<open>a > b\<close>: quantities of different dimensionality cannot be ordered; otherwise the
  magnitudes in root units are compared (for equal units these are the magnitudes
  themselves, scaled by the same positive factor).
\<close>

definition q_gt :: "quantity \<Rightarrow> quantity \<Rightarrow> error + bool" where
  "q_gt a b =
     (if dimensionality (units a) = dimensionality (units b)
      then Inr (to_root_units a > to_root_units b)
      else Inl DimensionalityError)"

definition q_le :: "quantity \<Rightarrow> quantity \<Rightarrow> error + bool" where
  "q_le a b =
     (if dimensionality (units a) = dimensionality (units b)
      then Inr (to_root_units a \<le> to_root_units b)
      else Inl DimensionalityError)"

text \<open>
  \<^verbatim>\<open>math.ceil(q)\<close> goes through the conversion of \<open>q\<close> to a plain number, which
  only a dimensionless quantity has.
\<close>

definition q_ceil :: "quantity \<Rightarrow> error + int" where
  "q_ceil q =
     (if dimensionality (units q) = dimensionality dimensionless
      then Inr \<lceil>to_root_units q\<rceil>
      else Inl DimensionalityError)"

text \<open>
  \<^verbatim>\<open>x ** n\<close> for a number \<open>x\<close> and an integer \<open>n\<close>, in exact arithmetic: a
  negative power of zero raises, and every other power has a value. A power of floats
  raises \<^verbatim>\<open>OverflowError\<close> as well, when it leaves the range of the floats
  (\<^verbatim>\<open>(1 + 1/300) ** 1200000\<close> does); an exact power never does, so this function
  has no such result.
\<close>

definition py_pow :: "real \<Rightarrow> int \<Rightarrow> error + real" where
  "py_pow x n = (if x = 0 \<and> n < 0 then Inl ZeroDivisionError else Inr (x powi n))"

section \<open>The mortgage\<close>

record Mortgage =
  loan_amount :: quantity
  home_value :: quantity
  duration :: quantity
  base_rate :: quantity
  base_closing_costs :: quantity
  cost_per_point :: quantity
  rate_reduction_per_point :: quantity

text \<open>The default field values of the class.\<close>

definition default_mortgage :: Mortgage where
  "default_mortgage = \<lparr>
     loan_amount = Q 500000 dollars,
     home_value = Q 600000 dollars,
     duration = Q 10 year,
     base_rate = Q 4 (udiv percent year),
     base_closing_costs = Q 5000 dollars,
     cost_per_point = Q 1 (udiv percent dp),
     rate_reduction_per_point = Q (1 / 8) (udiv percent (umul year dp)) \<rparr>"

definition effective_rate :: "Mortgage \<Rightarrow> quantity \<Rightarrow> error + quantity" where
  "effective_rate self n_points =
     q_sub (base_rate self) (q_mul (rate_reduction_per_point self) n_points)"

definition actual_closing_costs :: "Mortgage \<Rightarrow> quantity \<Rightarrow> error + quantity" where
  "actual_closing_costs self n_points =
     q_add (base_closing_costs self)
       (q_mul (q_mul (cost_per_point self) (loan_amount self)) n_points)"

definition down_payment :: "Mortgage \<Rightarrow> error + quantity" where
  "down_payment self = q_sub (home_value self) (loan_amount self)"

definition n_payments :: "Mortgage \<Rightarrow> error + int" where
  "n_payments self = and_then (q_div (duration self) (Q 1 month)) q_ceil"

text \<open>
  The base payment, in exact arithmetic. The division raises when the compounding factor
  is exactly 1. With floats it raises in more cases: for a rate below the precision of
  the floats \<^verbatim>\<open>1 + r\<close> rounds to \<^verbatim>\<open>1.0\<close>, the factor is
  \<^verbatim>\<open>1.0\<close> and the division raises \<^verbatim>\<open>ZeroDivisionError\<close>; for a long
  duration the power raises \<^verbatim>\<open>OverflowError\<close>. Where neither happens the float
  result is the value below up to rounding.
\<close>

definition base_payment :: "Mortgage \<Rightarrow> quantity \<Rightarrow> error + quantity" where
  "base_payment self n_points =
     and_then (effective_rate self n_points) (\<lambda>rate.
     and_then (q_to rate (udiv percent month)) (\<lambda>monthly_rate.
     and_then (q_to monthly_rate (udiv dimensionless month)) (\<lambda>r.
     and_then (n_payments self) (\<lambda>n.
     and_then (py_pow (1 + magnitude r) n) (\<lambda>compounding.
     and_then (q_div_number
                 (q_mul_number (q_mul (loan_amount self) monthly_rate) compounding)
                 (compounding - 1)) (\<lambda>p.
     q_to p (udiv dollars month)))))))"

text \<open>
  The body of the loop of \<^verbatim>\<open>payment_schedule\<close>, first the interest of the period
  and then the whole iteration: the new remaining mortgage and the payment to yield.
\<close>

definition interest_on :: "Mortgage \<Rightarrow> quantity \<Rightarrow> Mortgage \<Rightarrow> error + quantity" where
  "interest_on self n_points remaining =
     and_then (effective_rate self n_points) (\<lambda>rate.
     and_then (q_to rate (udiv percent month)) (\<lambda>monthly_rate.
     Inr (q_mul (q_mul (loan_amount remaining) (Q 1 month)) monthly_rate)))"

definition schedule_step ::
  "Mortgage \<Rightarrow> quantity \<Rightarrow> (Mortgage \<Rightarrow> quantity) \<Rightarrow> quantity \<Rightarrow> Mortgage
     \<Rightarrow> error + (Mortgage \<times> quantity)" where
  "schedule_step self n_points overpayment_strategy base remaining =
     and_then (interest_on self n_points remaining) (\<lambda>interest.
     and_then (q_add base (q_mul (overpayment_strategy remaining) (Q 1 month))) (\<lambda>payment.
     and_then (q_sub payment interest) (\<lambda>principal.
     and_then (q_gt principal (loan_amount remaining)) (\<lambda>over.
     and_then (if over then q_add principal interest else Inr payment) (\<lambda>payment'.
     and_then (q_sub (loan_amount remaining) principal) (\<lambda>la.
     Inr (self\<lparr>loan_amount := la\<rparr>, payment')))))))"

text \<open>
  The generator. Its result is the list of the pairs it yields, together with the
  exception that ends it, if one does; a loop that never ends has no result
  (\<open>None\<close>).
\<close>

partial_function (option) schedule_loop ::
  "Mortgage \<Rightarrow> quantity \<Rightarrow> (Mortgage \<Rightarrow> quantity) \<Rightarrow> quantity \<Rightarrow> Mortgage
     \<Rightarrow> ((Mortgage \<times> quantity) list \<times> error option) option" where
  "schedule_loop self n_points overpayment_strategy base remaining =
     (case q_gt (loan_amount remaining) (Q (1 / 10) dollars) of
        Inl e \<Rightarrow> Some ([], Some e)
      | Inr continue \<Rightarrow>
          if \<not> continue then Some ([], None)
          else
            (case schedule_step self n_points overpayment_strategy base remaining of
               Inl e \<Rightarrow> Some ([], Some e)
             | Inr (remaining', payment) \<Rightarrow>
                 Option.bind
                   (schedule_loop self n_points overpayment_strategy base remaining')
                   (\<lambda>(ys, e). Some ((remaining', payment) # ys, e))))"

declare schedule_loop.simps [code]

definition payment_schedule ::
  "Mortgage \<Rightarrow> quantity \<Rightarrow> (Mortgage \<Rightarrow> quantity) option
     \<Rightarrow> ((Mortgage \<times> quantity) list \<times> error option) option" where
  "payment_schedule self n_points overpayment_strategy =
     (let strategy = (case overpayment_strategy of
                        None \<Rightarrow> (\<lambda>mortgage. Q 0 (udiv dollars month))
                      | Some s \<Rightarrow> s)
      in case base_payment self n_points of
           Inl e \<Rightarrow> Some ([], Some e)
         | Inr b \<Rightarrow> schedule_loop self n_points strategy (q_mul b (Q 1 month)) self)"

text \<open>
  The generator is lazy: a consumer may ask for a few pairs only, also of a schedule that
  never ends. The pairs that the first \<open>k\<close> requests obtain, when the loop is entered
  with \<open>remaining\<close> and when the generator is started; an exception or the end of the
  loop ends the list early.
\<close>

fun loop_take ::
  "nat \<Rightarrow> Mortgage \<Rightarrow> quantity \<Rightarrow> (Mortgage \<Rightarrow> quantity) \<Rightarrow> quantity \<Rightarrow> Mortgage
     \<Rightarrow> (Mortgage \<times> quantity) list" where
  "loop_take 0 self n_points overpayment_strategy base remaining = []"
| "loop_take (Suc k) self n_points overpayment_strategy base remaining =
     (case q_gt (loan_amount remaining) (Q (1 / 10) dollars) of
        Inl e \<Rightarrow> []
      | Inr continue \<Rightarrow>
          if \<not> continue then []
          else
            (case schedule_step self n_points overpayment_strategy base remaining of
               Inl e \<Rightarrow> []
             | Inr (remaining', payment) \<Rightarrow>
                 (remaining', payment) #
                   loop_take k self n_points overpayment_strategy base remaining'))"

definition payment_schedule_take ::
  "nat \<Rightarrow> Mortgage \<Rightarrow> quantity \<Rightarrow> (Mortgage \<Rightarrow> quantity) option
     \<Rightarrow> (Mortgage \<times> quantity) list" where
  "payment_schedule_take k self n_points overpayment_strategy =
     (let strategy = (case overpayment_strategy of
                        None \<Rightarrow> (\<lambda>mortgage. Q 0 (udiv dollars month))
                      | Some s \<Rightarrow> s)
      in case base_payment self n_points of
           Inl e \<Rightarrow> []
         | Inr b \<Rightarrow> loop_take k self n_points strategy (q_mul b (Q 1 month)) self)"

text \<open>
  \<^verbatim>\<open>sum\<close> starts from the number 0; adding a quantity to the number 0 gives the
  quantity, whatever its units, and every later addition is one of quantities.
  \<open>None\<close> stands for the number 0.
\<close>

fun sum_from :: "quantity \<Rightarrow> quantity list \<Rightarrow> error + quantity" where
  "sum_from acc [] = Inr acc"
| "sum_from acc (p # ps) = and_then (q_add acc p) (\<lambda>acc'. sum_from acc' ps)"

fun py_sum :: "quantity list \<Rightarrow> error + quantity option" where
  "py_sum [] = Inr None"
| "py_sum (p # ps) = and_then (sum_from p ps) (\<lambda>s. Inr (Some s))"

fun add_sum :: "quantity \<Rightarrow> quantity option \<Rightarrow> error + quantity" where
  "add_sum a None = Inr a"
| "add_sum a (Some s) = q_add a s"

definition total_cost ::
  "Mortgage \<Rightarrow> quantity \<Rightarrow> (Mortgage \<Rightarrow> quantity) option
     \<Rightarrow> (error + quantity \<times> quantity) option" where
  "total_cost self n_points overpayment_strategy =
     (case payment_schedule self n_points overpayment_strategy of
        None \<Rightarrow> None
      | Some (schedule, Some e) \<Rightarrow> Some (Inl e)
      | Some (schedule, None) \<Rightarrow> Some (
          and_then (down_payment self) (\<lambda>down.
          and_then (actual_closing_costs self n_points) (\<lambda>closing.
          and_then (q_add down closing) (\<lambda>upfront.
          and_then (py_sum (map snd schedule)) (\<lambda>payments.
          and_then (add_sum upfront payments) (\<lambda>total.
          Inr (total, Q (real (length schedule)) month))))))))"

section \<open>The principal of each step\<close>

text \<open>
  The principal of a step is its payment minus its interest, the interest being computed
  on the mortgage that remained before the step. For a schedule that starts from
  \<open>remaining\<close>, the list of the principals of its steps.
\<close>

fun principals ::
  "Mortgage \<Rightarrow> quantity \<Rightarrow> Mortgage \<Rightarrow> (Mortgage \<times> quantity) list
     \<Rightarrow> error + quantity list" where
  "principals self n_points remaining [] = Inr []"
| "principals self n_points remaining ((remaining', payment) # ys) =
     and_then (interest_on self n_points remaining) (\<lambda>interest.
     and_then (q_sub payment interest) (\<lambda>principal.
     and_then (principals self n_points remaining' ys) (\<lambda>ps.
     Inr (principal # ps))))"

section \<open>Example mortgages\<close>

text \<open>A mortgage whose points raise the rate: its rate reduction per point is negative.\<close>

definition lender_credit_mortgage :: Mortgage where
  "lender_credit_mortgage =
     default_mortgage\<lparr>rate_reduction_per_point := Q (- (1 / 8)) (udiv percent (umul year dp))\<rparr>"

text \<open>A loan of 1000 dollars at 12 percent per year, to be paid in one month.\<close>

definition one_month_mortgage :: Mortgage where
  "one_month_mortgage =
     default_mortgage\<lparr>loan_amount := Q 1000 dollars, duration := Q 1 month,
       base_rate := Q 12 (udiv percent year)\<rparr>"

text \<open>The default mortgage when nothing is left to pay.\<close>

definition paid_off_mortgage :: Mortgage where
  "paid_off_mortgage = default_mortgage\<lparr>loan_amount := Q 0 dollars\<rparr>"

text \<open>The strategy that pays 100 dollars more each month.\<close>

definition hundred_more :: "Mortgage \<Rightarrow> quantity" where
  "hundred_more mortgage = Q 100 (udiv dollars month)"

text \<open>
  A loan of 1000 dollars over two months, and the strategy that pays one dollar more
  each month.
\<close>

definition two_month_mortgage :: Mortgage where
  "two_month_mortgage =
     default_mortgage\<lparr>loan_amount := Q 1000 dollars, duration := Q 2 month\<rparr>"

definition one_more :: "Mortgage \<Rightarrow> quantity" where
  "one_more mortgage = Q 1 (udiv dollars month)"

section \<open>Arithmetic of quantities\<close>

lemma scale_pos: "0 < scale u"
  by (cases u) (simp add: zero_less_power_int)

lemma scale_umul: "scale (umul u v) = scale u * scale v"
  by (cases u; cases v) (simp add: power_int_add)

lemma to_root_units_nonneg: "0 \<le> magnitude q \<Longrightarrow> 0 \<le> to_root_units q"
  using scale_pos [of "units q"] by (simp add: to_root_units_def)

lemma root_q_mul: "to_root_units (q_mul a b) = to_root_units a * to_root_units b"
  by (simp add: to_root_units_def q_mul_def scale_umul)

lemma q_to_iff:
  "q_to q u = Inr q' \<longleftrightarrow>
     dimensionality (units q) = dimensionality u \<and> q' = Q (to_root_units q / scale u) u"
  by (auto simp: q_to_def to_root_units_def)

lemma q_add_iff:
  "q_add a b = Inr r \<longleftrightarrow>
     dimensionality (units b) = dimensionality (units a) \<and>
     r = Q (magnitude a + to_root_units b / scale (units a)) (units a)"
  by (auto simp: q_add_def q_to_def to_root_units_def)

lemma q_sub_iff:
  "q_sub a b = Inr r \<longleftrightarrow>
     dimensionality (units b) = dimensionality (units a) \<and>
     r = Q (magnitude a - to_root_units b / scale (units a)) (units a)"
  by (auto simp: q_sub_def q_to_def to_root_units_def)

lemma q_add_root:
  "q_add a b = Inr r \<Longrightarrow> to_root_units r = to_root_units a + to_root_units b"
  using scale_pos [of "units a"] by (auto simp: q_add_iff to_root_units_def field_simps)

lemma q_sub_root:
  "q_sub a b = Inr r \<Longrightarrow> to_root_units r = to_root_units a - to_root_units b"
  using scale_pos [of "units a"] by (auto simp: q_sub_iff to_root_units_def field_simps)

lemma q_le_True_iff:
  "q_le a b = Inr True \<longleftrightarrow>
     dimensionality (units a) = dimensionality (units b) \<and> to_root_units a \<le> to_root_units b"
  by (simp add: q_le_def)

lemma and_then_Inr_iff:
  "and_then m f = Inr y \<longleftrightarrow> (\<exists>x. m = Inr x \<and> f x = Inr y)"
  by (cases m) auto

section \<open>The effective rate\<close>

text \<open>
  Claim C6. For a valid loan state, whose rate reduction per point is not negative and
  has, multiplied by a number of points, the dimensionality of the base rate, the
  effective rate is the base rate minus the rate reduction per point times the number of
  points, and it decreases with the number of points: for \<open>n1 \<le> n2\<close> the rate at
  \<open>n2\<close> is at most the rate at \<open>n1\<close>.
\<close>

theorem effective_rate_decreasing:
  assumes d1: "dimensionality (units (q_mul (rate_reduction_per_point self) n1)) =
                 dimensionality (units (base_rate self))"
    and d2: "dimensionality (units (q_mul (rate_reduction_per_point self) n2)) =
                 dimensionality (units (base_rate self))"
    and le: "q_le n1 n2 = Inr True"
    and nonneg: "0 \<le> magnitude (rate_reduction_per_point self)"
  shows "\<exists>r1 r2. effective_rate self n1 = Inr r1 \<and> effective_rate self n2 = Inr r2 \<and>
           to_root_units r1 = to_root_units (base_rate self) -
              to_root_units (rate_reduction_per_point self) * to_root_units n1 \<and>
           to_root_units r2 = to_root_units (base_rate self) -
              to_root_units (rate_reduction_per_point self) * to_root_units n2 \<and>
           q_le r2 r1 = Inr True"
proof -
  let ?br = "base_rate self" and ?rr = "rate_reduction_per_point self"
  obtain r1 where r1: "effective_rate self n1 = Inr r1"
    using d1 by (simp add: effective_rate_def q_sub_iff)
  obtain r2 where r2: "effective_rate self n2 = Inr r2"
    using d2 by (simp add: effective_rate_def q_sub_iff)
  have v1: "to_root_units r1 = to_root_units ?br - to_root_units ?rr * to_root_units n1"
    using q_sub_root [OF r1 [unfolded effective_rate_def]] by (simp add: root_q_mul)
  have v2: "to_root_units r2 = to_root_units ?br - to_root_units ?rr * to_root_units n2"
    using q_sub_root [OF r2 [unfolded effective_rate_def]] by (simp add: root_q_mul)
  have u: "units r1 = units ?br" "units r2 = units ?br"
    using r1 r2 by (auto simp: effective_rate_def q_sub_iff)
  have "to_root_units n1 \<le> to_root_units n2"
    using le by (simp add: q_le_True_iff)
  then have "to_root_units ?rr * to_root_units n1 \<le> to_root_units ?rr * to_root_units n2"
    using to_root_units_nonneg [OF nonneg] by (rule mult_left_mono)
  then have "q_le r2 r1 = Inr True"
    using u v1 v2 by (simp add: q_le_True_iff)
  with r1 r2 v1 v2 show ?thesis by blast
qed

text \<open>The default mortgage with no points and with two points.\<close>

theorem effective_rate_decreasing_witness:
  "q_le (Q 0 dp) (Q 2 dp) = Inr True \<and>
   0 \<le> magnitude (rate_reduction_per_point default_mortgage) \<and>
   (\<exists>r1 r2. effective_rate default_mortgage (Q 0 dp) = Inr r1 \<and>
     effective_rate default_mortgage (Q 2 dp) = Inr r2 \<and>
     to_root_units r1 = to_root_units (base_rate default_mortgage) -
        to_root_units (rate_reduction_per_point default_mortgage) * to_root_units (Q 0 dp) \<and>
     to_root_units r2 = to_root_units (base_rate default_mortgage) -
        to_root_units (rate_reduction_per_point default_mortgage) * to_root_units (Q 2 dp) \<and>
     q_le r2 r1 = Inr True)"
proof -
  have le: "q_le (Q 0 dp) (Q 2 dp) = Inr True"
    by (simp add: q_le_def to_root_units_def dp_def)
  have nonneg: "0 \<le> magnitude (rate_reduction_per_point default_mortgage)"
    by (simp add: default_mortgage_def)
  have d: "dimensionality (units (q_mul (rate_reduction_per_point default_mortgage) (Q n dp))) =
             dimensionality (units (base_rate default_mortgage))" for n
    by (simp add: default_mortgage_def q_mul_def percent_def year_def dp_def)
  from effective_rate_decreasing [OF d d le nonneg] le nonneg show ?thesis
    by blast
qed

text \<open>
  The sign of the rate reduction per point matters: with a negative one, which the code
  accepts, one point gives a higher rate than no point.
\<close>

lemma effective_rate_negative_reduction:
  "q_le (Q 0 dollars) (loan_amount lender_credit_mortgage) = Inr True \<and>
   q_le (loan_amount lender_credit_mortgage) (home_value lender_credit_mortgage) = Inr True \<and>
   q_le (Q 0 dp) (Q 1 dp) = Inr True \<and>
   effective_rate lender_credit_mortgage (Q 0 dp) = Inr (Q 4 (udiv percent year)) \<and>
   effective_rate lender_credit_mortgage (Q 1 dp) = Inr (Q (33 / 8) (udiv percent year)) \<and>
   q_le (Q (33 / 8) (udiv percent year)) (Q 4 (udiv percent year)) = Inr False"
  by (simp add: lender_credit_mortgage_def default_mortgage_def effective_rate_def
        q_sub_def q_to_def q_mul_def q_le_def to_root_units_def
        percent_def year_def dp_def dollars_def)

section \<open>The fixed monthly payment\<close>

lemmas unit_defs = dimensionless_def dollars_def year_def month_def percent_def dp_def


lemma monthly_rate_eq:
  assumes "dimensionality (units rate) = (0, - 1, 0)"
  shows "q_to rate (udiv percent month) = Inr (Q (to_root_units rate * 100) (udiv percent month))"
  using assms by (simp add: q_to_iff unit_defs)






section \<open>The payment schedule\<close>

lemma schedule_loop_error:
  "q_gt (loan_amount remaining) (Q (1 / 10) dollars) = Inl e
     \<Longrightarrow> schedule_loop self n s b remaining = Some ([], Some e)"
  by (subst schedule_loop.simps) simp

lemma schedule_loop_stop:
  "q_gt (loan_amount remaining) (Q (1 / 10) dollars) = Inr False
     \<Longrightarrow> schedule_loop self n s b remaining = Some ([], None)"
  by (subst schedule_loop.simps) simp

lemma schedule_loop_step_error:
  "q_gt (loan_amount remaining) (Q (1 / 10) dollars) = Inr True
     \<Longrightarrow> schedule_step self n s b remaining = Inl e
     \<Longrightarrow> schedule_loop self n s b remaining = Some ([], Some e)"
  by (subst schedule_loop.simps) simp

lemma schedule_loop_step:
  "q_gt (loan_amount remaining) (Q (1 / 10) dollars) = Inr True
     \<Longrightarrow> schedule_step self n s b remaining = Inr (remaining', payment)
     \<Longrightarrow> schedule_loop self n s b remaining =
           Option.bind (schedule_loop self n s b remaining')
             (\<lambda>(ys, e). Some ((remaining', payment) # ys, e))"
  by (subst schedule_loop.simps) simp

lemma schedule_loop_cases [consumes 1, case_names error stop step_error step]:
  assumes "schedule_loop self n s b remaining = Some (ys, eo)"
  obtains
    e where "q_gt (loan_amount remaining) (Q (1 / 10) dollars) = Inl e"
      and "ys = []" and "eo = Some e"
  | "q_gt (loan_amount remaining) (Q (1 / 10) dollars) = Inr False"
      and "ys = []" and "eo = None"
  | e where "q_gt (loan_amount remaining) (Q (1 / 10) dollars) = Inr True"
      and "schedule_step self n s b remaining = Inl e" and "ys = []" and "eo = Some e"
  | remaining' payment ys' where "q_gt (loan_amount remaining) (Q (1 / 10) dollars) = Inr True"
      and "schedule_step self n s b remaining = Inr (remaining', payment)"
      and "schedule_loop self n s b remaining' = Some (ys', eo)"
      and "ys = (remaining', payment) # ys'"
proof (cases "q_gt (loan_amount remaining) (Q (1 / 10) dollars)")
  case (Inl e)
  with assms that(1) show ?thesis by (simp add: schedule_loop_error)
next
  case (Inr continue)
  show ?thesis
  proof (cases continue)
    case False
    with Inr assms that(2) show ?thesis by (simp add: schedule_loop_stop)
  next
    case True
    show ?thesis
    proof (cases "schedule_step self n s b remaining")
      case (Inl e)
      with Inr True assms that(3) show ?thesis by (simp add: schedule_loop_step_error)
    next
      case step: (Inr rp)
      obtain remaining' payment where rp: "rp = (remaining', payment)" by (cases rp)
      from assms Inr True step rp
      have "Option.bind (schedule_loop self n s b remaining')
              (\<lambda>(ys, e). Some ((remaining', payment) # ys, e)) = Some (ys, eo)"
        by (simp add: schedule_loop_step)
      then obtain ys' where "schedule_loop self n s b remaining' = Some (ys', eo)"
        and "ys = (remaining', payment) # ys'"
        by (auto simp: bind_eq_Some_conv)
      with Inr True step rp that(4) show ?thesis by simp
    qed
  qed
qed

lemma schedule_step_state:
  assumes "schedule_step self n s b remaining = Inr (remaining', payment)"
  shows "\<exists>la. remaining' = self\<lparr>loan_amount := la\<rparr>"
  using assms by (auto simp: schedule_step_def and_then_Inr_iff)

lemma payment_schedule_cases [consumes 1, case_names error loop]:
  assumes "payment_schedule self n strategy = Some (ys, eo)"
  obtains e where "base_payment self n = Inl e" and "ys = []" and "eo = Some e"
  | b where "base_payment self n = Inr b"
      and "schedule_loop self n
             (case strategy of None \<Rightarrow> (\<lambda>mortgage. Q 0 (udiv dollars month)) | Some s \<Rightarrow> s)
             (q_mul b (Q 1 month)) self = Some (ys, eo)"
  using assms by (auto simp: payment_schedule_def split: sum.splits)

lemma loop_take_states:
  assumes "(m, p) \<in> set (loop_take k self n s b remaining)"
  shows "\<exists>la. m = self\<lparr>loan_amount := la\<rparr>"
  using assms
proof (induction k arbitrary: remaining)
  case 0
  then show ?case by simp
next
  case (Suc k)
  show ?case
  proof (cases "schedule_step self n s b remaining")
    case (Inl e)
    with Suc.prems show ?thesis by (simp split: sum.splits if_splits)
  next
    case (Inr rp)
    obtain remaining' payment where rp: "rp = (remaining', payment)" by (cases rp)
    from Suc.prems Inr rp
    have "(m, p) = (remaining', payment) \<or> (m, p) \<in> set (loop_take k self n s b remaining')"
      by (simp split: sum.splits if_splits)
    with schedule_step_state [of self n s b remaining remaining' payment] Inr rp Suc.IH
    show ?thesis by auto
  qed
qed

lemma loop_take_finished:
  assumes "schedule_loop self n s b remaining = Some (ys, eo)"
  shows "loop_take k self n s b remaining = take k ys"
  using assms
proof (induction k arbitrary: remaining ys)
  case 0
  then show ?case by simp
next
  case (Suc k)
  from Suc.prems show ?case
  proof (cases rule: schedule_loop_cases)
    case (step remaining' payment ys')
    with Suc.IH [OF step(3)] show ?thesis by simp
  qed simp_all
qed

lemma payment_schedule_take_finished:
  assumes "payment_schedule self n strategy = Some (ys, eo)"
  shows "payment_schedule_take k self n strategy = take k ys"
  using assms
proof (cases rule: payment_schedule_cases)
  case (error e)
  then show ?thesis by (simp add: payment_schedule_take_def)
next
  case (loop b)
  from loop_take_finished [OF loop(2)] loop(1) show ?thesis
    by (simp add: payment_schedule_take_def)
qed

text \<open>
  Claim C8. Every mortgage that the schedule yields, whether the schedule ends or not,
  has the home value, the duration, the base rate, the base closing costs, the cost per
  point and the rate reduction per point of the original mortgage: only the loan amount
  changes.
\<close>

theorem payment_schedule_frame:
  assumes "(m, p) \<in> set (payment_schedule_take k self n_points strategy)"
  shows "home_value m = home_value self \<and> duration m = duration self \<and>
         base_rate m = base_rate self \<and> base_closing_costs m = base_closing_costs self \<and>
         cost_per_point m = cost_per_point self \<and>
         rate_reduction_per_point m = rate_reduction_per_point self"
proof (cases "base_payment self n_points")
  case (Inl e)
  with assms show ?thesis by (simp add: payment_schedule_take_def)
next
  case (Inr b)
  with assms have "(m, p) \<in> set (loop_take k self n_points
      (case strategy of None \<Rightarrow> (\<lambda>mortgage. Q 0 (udiv dollars month)) | Some s \<Rightarrow> s)
      (q_mul b (Q 1 month)) self)"
    by (simp add: payment_schedule_take_def)
  from loop_take_states [OF this] show ?thesis by auto
qed

lemma one_month_base: "base_payment one_month_mortgage (Q 0 dp) = Inr (Q 1010 (udiv dollars month))"
  by (simp add: one_month_mortgage_def default_mortgage_def base_payment_def
        n_payments_def effective_rate_def q_div_def q_ceil_def py_pow_def
        q_sub_def q_to_def q_mul_def q_mul_number_def q_div_number_def
        to_root_units_def dimensionless_def dollars_def year_def month_def percent_def dp_def)

lemmas eval_defs = effective_rate_def interest_on_def schedule_step_def
  q_sub_def q_add_def q_to_def q_mul_def q_gt_def to_root_units_def

lemma one_month_schedule:
  "payment_schedule one_month_mortgage (Q 0 dp) None =
     Some ([(one_month_mortgage\<lparr>loan_amount := Q 0 dollars\<rparr>, Q 1010 dollars)], None)"
proof -
  let ?s = "\<lambda>mortgage::Mortgage. Q 0 (udiv dollars month)"
  let ?m = "one_month_mortgage\<lparr>loan_amount := Q 0 dollars\<rparr>"
  have b: "q_mul (Q 1010 (udiv dollars month)) (Q 1 month) = Q 1010 dollars"
    by (simp add: q_mul_def unit_defs)
  have c: "q_gt (loan_amount one_month_mortgage) (Q (1 / 10) dollars) = Inr True"
    by (simp add: one_month_mortgage_def default_mortgage_def eval_defs unit_defs)
  have s: "schedule_step one_month_mortgage (Q 0 dp) ?s (Q 1010 dollars) one_month_mortgage =
             Inr (?m, Q 1010 dollars)"
    by (simp add: one_month_mortgage_def default_mortgage_def eval_defs unit_defs)
  have e: "q_gt (loan_amount ?m) (Q (1 / 10) dollars) = Inr False"
    by (simp add: eval_defs unit_defs)
  show ?thesis
    by (simp add: payment_schedule_def one_month_base b schedule_loop_step [OF c s]
          schedule_loop_stop [OF e])
qed

lemma one_month_overpaid:
  "payment_schedule one_month_mortgage (Q 0 dp) (Some (\<lambda>mortgage. Q 100 (udiv dollars month))) =
     Some ([(one_month_mortgage\<lparr>loan_amount := Q (- 100) dollars\<rparr>, Q 1110 dollars)], None)"
proof -
  let ?s = "\<lambda>mortgage::Mortgage. Q 100 (udiv dollars month)"
  let ?m = "one_month_mortgage\<lparr>loan_amount := Q (- 100) dollars\<rparr>"
  have b: "q_mul (Q 1010 (udiv dollars month)) (Q 1 month) = Q 1010 dollars"
    by (simp add: q_mul_def unit_defs)
  have c: "q_gt (loan_amount one_month_mortgage) (Q (1 / 10) dollars) = Inr True"
    by (simp add: one_month_mortgage_def default_mortgage_def eval_defs unit_defs)
  have s: "schedule_step one_month_mortgage (Q 0 dp) ?s (Q 1010 dollars) one_month_mortgage =
             Inr (?m, Q 1110 dollars)"
    by (simp add: one_month_mortgage_def default_mortgage_def eval_defs unit_defs)
  have e: "q_gt (loan_amount ?m) (Q (1 / 10) dollars) = Inr False"
    by (simp add: eval_defs unit_defs)
  show ?thesis
    by (simp add: payment_schedule_def one_month_base b schedule_loop_step [OF c s]
          schedule_loop_stop [OF e])
qed

lemma hundred_more_eq: "hundred_more = (\<lambda>mortgage. Q 100 (udiv dollars month))"
  by (rule ext) (simp add: hundred_more_def)

lemma one_month_hundred_more:
  "payment_schedule one_month_mortgage (Q 0 dp) (Some hundred_more) =
     Some ([(one_month_mortgage\<lparr>loan_amount := Q (- 100) dollars\<rparr>, Q 1110 dollars)], None)"
  by (simp only: hundred_more_eq one_month_overpaid)

text \<open>
  The schedule of the one-month mortgage, whose only step pays the loan off.
\<close>

theorem payment_schedule_frame_witness:
  "payment_schedule_take 3 one_month_mortgage (Q 0 dp) None =
     [(one_month_mortgage\<lparr>loan_amount := Q 0 dollars\<rparr>, Q 1010 dollars)] \<and>
   home_value (one_month_mortgage\<lparr>loan_amount := Q 0 dollars\<rparr>) = home_value one_month_mortgage \<and>
   duration (one_month_mortgage\<lparr>loan_amount := Q 0 dollars\<rparr>) = duration one_month_mortgage \<and>
   base_rate (one_month_mortgage\<lparr>loan_amount := Q 0 dollars\<rparr>) = base_rate one_month_mortgage \<and>
   base_closing_costs (one_month_mortgage\<lparr>loan_amount := Q 0 dollars\<rparr>) =
     base_closing_costs one_month_mortgage \<and>
   cost_per_point (one_month_mortgage\<lparr>loan_amount := Q 0 dollars\<rparr>) =
     cost_per_point one_month_mortgage \<and>
   rate_reduction_per_point (one_month_mortgage\<lparr>loan_amount := Q 0 dollars\<rparr>) =
     rate_reduction_per_point one_month_mortgage"
proof -
  have t: "payment_schedule_take 3 one_month_mortgage (Q 0 dp) None =
      [(one_month_mortgage\<lparr>loan_amount := Q 0 dollars\<rparr>, Q 1010 dollars)]"
    using payment_schedule_take_finished [OF one_month_schedule, of 3] by simp
  then have "(one_month_mortgage\<lparr>loan_amount := Q 0 dollars\<rparr>, Q 1010 dollars) \<in>
          set (payment_schedule_take 3 one_month_mortgage (Q 0 dp) None)"
    by simp
  from t payment_schedule_frame [OF this]
  show ?thesis by (rule conjI)
qed

section \<open>The last payment\<close>

text \<open>
  Claim C1, at an input where the code departs from it. The one-month loan of 1000
  dollars at 1 percent per month has a base payment of 1010 dollars; with 100 dollars
  more each month the principal, 1100 dollars, exceeds the balance. The payment is
  recomputed as principal plus interest, which is the payment again, the principal is
  left as it is, and the only state yielded has a loan amount of minus 100 dollars.
\<close>

theorem overpayment_not_capped:
  "payment_schedule one_month_mortgage (Q 0 dp) (Some hundred_more) =
     Some ([(one_month_mortgage\<lparr>loan_amount := Q (- 100) dollars\<rparr>, Q 1110 dollars)], None) \<and>
   q_gt (Q 0 dollars) (Q (- 100) dollars) = Inr True"
  using one_month_hundred_more by (simp add: q_gt_def to_root_units_def unit_defs)

section \<open>The unit of the payments\<close>

lemma base_payment_units:
  assumes "base_payment self n = Inr b"
  shows "units b = udiv dollars month"
  using assms by (auto simp: base_payment_def and_then_Inr_iff q_to_iff)

lemma schedule_step_payment:
  assumes "schedule_step self n s b remaining = Inr (remaining', payment)"
  shows "\<exists>payment0. q_add b (q_mul (s remaining) (Q 1 month)) = Inr payment0 \<and> payment = payment0"
proof -
  from assms obtain interest payment0 principal over where
    p0: "q_add b (q_mul (s remaining) (Q 1 month)) = Inr payment0"
    and pr: "q_sub payment0 interest = Inr principal"
    and p': "(if over then q_add principal interest else Inr payment0) = Inr payment"
    by (auto simp: schedule_step_def and_then_Inr_iff)
  have "q_add principal interest = Inr payment0"
    using pr by (cases payment0) (auto simp: q_sub_iff q_add_iff)
  with p' have "payment = payment0"
    by (cases over) simp_all
  with p0 show ?thesis by simp
qed

lemma schedule_step_units:
  assumes "schedule_step self n s b remaining = Inr (remaining', payment)"
  shows "units payment = units b"
  using schedule_step_payment [OF assms] by (auto simp: q_add_iff)

lemma schedule_loop_units:
  assumes "schedule_loop self n s b remaining = Some (ys, eo)" and "(m, p) \<in> set ys"
  shows "units p = units b"
  using assms
proof (induction ys arbitrary: remaining)
  case Nil
  then show ?case by simp
next
  case (Cons y ys)
  from Cons.prems(1) show ?case
  proof (cases rule: schedule_loop_cases)
    case (step remaining' payment ys')
    with Cons.prems(2) Cons.IH [of remaining'] schedule_step_units [OF step(2)]
    show ?thesis by auto
  qed simp_all
qed

lemma payment_schedule_units:
  assumes "payment_schedule self n_points strategy = Some (ys, eo)" and "(m, p) \<in> set ys"
  shows "units p = dollars"
  using assms(1)
proof (cases rule: payment_schedule_cases)
  case (error e)
  with assms(2) show ?thesis by simp
next
  case (loop b)
  have "units (q_mul b (Q 1 month)) = dollars"
    by (simp add: q_mul_def base_payment_units [OF loop(1)] unit_defs)
  with schedule_loop_units [OF loop(2) assms(2)] show ?thesis by simp
qed

lemma loop_take_units:
  assumes "(m, p) \<in> set (loop_take k self n s b remaining)"
  shows "units p = units b"
  using assms
proof (induction k arbitrary: remaining)
  case 0
  then show ?case by simp
next
  case (Suc k)
  show ?case
  proof (cases "schedule_step self n s b remaining")
    case (Inl e)
    with Suc.prems show ?thesis by (simp split: sum.splits if_splits)
  next
    case (Inr rp)
    obtain remaining' payment where rp: "rp = (remaining', payment)" by (cases rp)
    from Suc.prems Inr rp
    have "(m, p) = (remaining', payment) \<or> (m, p) \<in> set (loop_take k self n s b remaining')"
      by (simp split: sum.splits if_splits)
    with schedule_step_units [of self n s b remaining remaining' payment] Inr rp Suc.IH
    show ?thesis by auto
  qed
qed

text \<open>
  Claim C9, amended. Every payment that the schedule yields, whether the schedule ends
  or not, is a quantity in dollars: the base payment, in dollars per month, and the
  extra payment are multiplied by one month before they are added.
\<close>

theorem payment_schedule_dollars:
  assumes "(m, p) \<in> set (payment_schedule_take k self n_points strategy)"
  shows "units p = dollars"
proof (cases "base_payment self n_points")
  case (Inl e)
  with assms show ?thesis by (simp add: payment_schedule_take_def)
next
  case (Inr b)
  have "units (q_mul b (Q 1 month)) = dollars"
    by (simp add: q_mul_def base_payment_units [OF Inr] unit_defs)
  moreover from Inr assms have "(m, p) \<in> set (loop_take k self n_points
      (case strategy of None \<Rightarrow> (\<lambda>mortgage. Q 0 (udiv dollars month)) | Some s \<Rightarrow> s)
      (q_mul b (Q 1 month)) self)"
    by (simp add: payment_schedule_take_def)
  from loop_take_units [OF this] have "units p = units (q_mul b (Q 1 month))" .
  ultimately show ?thesis by simp
qed

text \<open>The schedule of the one-month mortgage with 100 dollars per month more.\<close>

theorem payment_schedule_dollars_witness:
  "payment_schedule_take 3 one_month_mortgage (Q 0 dp) (Some hundred_more) =
     [(one_month_mortgage\<lparr>loan_amount := Q (- 100) dollars\<rparr>, Q 1110 dollars)] \<and>
   units (Q 1110 dollars) = dollars"
proof -
  have t: "payment_schedule_take 3 one_month_mortgage (Q 0 dp) (Some hundred_more) =
      [(one_month_mortgage\<lparr>loan_amount := Q (- 100) dollars\<rparr>, Q 1110 dollars)]"
    using payment_schedule_take_finished [OF one_month_hundred_more, of 3] by simp
  then have "(one_month_mortgage\<lparr>loan_amount := Q (- 100) dollars\<rparr>, Q 1110 dollars) \<in>
          set (payment_schedule_take 3 one_month_mortgage (Q 0 dp) (Some hundred_more))"
    by simp
  from t payment_schedule_dollars [OF this]
  show ?thesis by (rule conjI)
qed

text \<open>
  As claim C9 is stated, it fails: the payment of the one-month mortgage is 1010
  dollars, and dollars do not have the dimensionality of dollars per month.
\<close>

theorem payment_dimension_counterexample:
  "payment_schedule one_month_mortgage (Q 0 dp) None =
     Some ([(one_month_mortgage\<lparr>loan_amount := Q 0 dollars\<rparr>, Q 1010 dollars)], None) \<and>
   dimensionality (units (Q 1010 dollars)) \<noteq> dimensionality (udiv dollars month)"
  using one_month_schedule by (simp add: unit_defs)

section \<open>The strategy that pays nothing more\<close>

lemma schedule_loop_cong_Some:
  assumes eq: "\<And>remaining. schedule_step self n s b remaining = schedule_step self n s' b remaining"
    and "schedule_loop self n s b remaining = Some (ys, eo)"
  shows "schedule_loop self n s' b remaining = Some (ys, eo)"
  using assms(2)
proof (induction ys arbitrary: remaining)
  case Nil
  from Nil show ?case
    by (cases rule: schedule_loop_cases)
       (simp_all add: schedule_loop_error schedule_loop_stop schedule_loop_step_error eq)
next
  case (Cons y ys)
  from Cons.prems show ?case
  proof (cases rule: schedule_loop_cases)
    case (step remaining' payment ys')
    from step(4) have ys: "ys' = ys" and y: "y = (remaining', payment)" by simp_all
    from Cons.IH [of remaining'] step(3) ys
    have "schedule_loop self n s' b remaining' = Some (ys, eo)" by simp
    with step(1,2) y show ?thesis
      by (simp add: schedule_loop_step [of remaining self n s' b remaining' payment] eq)
  qed simp_all
qed

lemma schedule_loop_cong:
  assumes eq: "\<And>remaining. schedule_step self n s b remaining = schedule_step self n s' b remaining"
  shows "schedule_loop self n s b remaining = schedule_loop self n s' b remaining"
proof (cases "schedule_loop self n s b remaining")
  case None
  show ?thesis
  proof (cases "schedule_loop self n s' b remaining")
    case inner: None
    with None show ?thesis by simp
  next
    case (Some y)
    obtain ys eo where "y = (ys, eo)" by (cases y)
    with Some schedule_loop_cong_Some [of self n s' b s remaining ys eo] eq None
    show ?thesis by simp
  qed
next
  case (Some y)
  obtain ys eo where "y = (ys, eo)" by (cases y)
  with Some schedule_loop_cong_Some [of self n s b s' remaining ys eo] eq
  show ?thesis by simp
qed

lemma loop_take_cong:
  assumes eq: "\<And>remaining. schedule_step self n s b remaining = schedule_step self n s' b remaining"
  shows "loop_take k self n s b remaining = loop_take k self n s' b remaining"
  by (induction k arbitrary: remaining) (simp_all add: eq split: sum.splits)

text \<open>
  Claim C5. A strategy that always returns zero, in dollars per month or in any unit of
  that dimensionality, gives the schedule that no strategy gives: the same pairs, the
  same exception if one ends it, no result for the one if none for the other, and the
  same first \<open>k\<close> pairs for every \<open>k\<close>.
\<close>

theorem zero_strategy_schedule:
  assumes zero: "\<And>mortgage. magnitude (strategy mortgage) = 0 \<and>
            dimensionality (units (strategy mortgage)) = dimensionality (udiv dollars month)"
  shows "payment_schedule self n_points (Some strategy) = payment_schedule self n_points None \<and>
         payment_schedule_take k self n_points (Some strategy) =
           payment_schedule_take k self n_points None"
proof (cases "base_payment self n_points")
  case (Inl e)
  then show ?thesis by (simp add: payment_schedule_def payment_schedule_take_def)
next
  case (Inr b)
  have "q_add base (q_mul (strategy remaining) (Q 1 month)) =
        q_add base (q_mul (Q 0 (udiv dollars month)) (Q 1 month))" for base remaining
    using zero [of remaining]
    by (cases "units (strategy remaining)")
       (simp add: q_add_def q_to_def q_mul_def unit_defs add.assoc [symmetric])
  then have step: "schedule_step self n_points strategy base remaining =
        schedule_step self n_points (\<lambda>mortgage. Q 0 (udiv dollars month)) base remaining"
    for base remaining
    by (simp add: schedule_step_def)
  from schedule_loop_cong [of self n_points strategy _ "\<lambda>mortgage. Q 0 (udiv dollars month)", OF step]
    loop_take_cong [of self n_points strategy _ "\<lambda>mortgage. Q 0 (udiv dollars month)", OF step]
  show ?thesis
    using Inr by (simp add: payment_schedule_def payment_schedule_take_def)
qed

text \<open>The one-month mortgage with the strategy that returns zero dollars per year.\<close>

theorem zero_strategy_schedule_witness:
  "magnitude (Q 0 (udiv dollars year)) = 0 \<and>
   dimensionality (units (Q 0 (udiv dollars year))) = dimensionality (udiv dollars month) \<and>
   payment_schedule one_month_mortgage (Q 0 dp) (Some (\<lambda>mortgage. Q 0 (udiv dollars year))) =
     payment_schedule one_month_mortgage (Q 0 dp) None \<and>
   payment_schedule_take 3 one_month_mortgage (Q 0 dp)
       (Some (\<lambda>mortgage. Q 0 (udiv dollars year))) =
     payment_schedule_take 3 one_month_mortgage (Q 0 dp) None \<and>
   payment_schedule one_month_mortgage (Q 0 dp) None =
     Some ([(one_month_mortgage\<lparr>loan_amount := Q 0 dollars\<rparr>, Q 1010 dollars)], None)"
proof -
  have z: "magnitude (Q 0 (udiv dollars year)) = 0 \<and>
      dimensionality (units (Q 0 (udiv dollars year))) = dimensionality (udiv dollars month)"
    by (simp add: unit_defs)
  from zero_strategy_schedule [of "\<lambda>mortgage. Q 0 (udiv dollars year)", OF z]
  have "payment_schedule one_month_mortgage (Q 0 dp) (Some (\<lambda>mortgage. Q 0 (udiv dollars year))) =
     payment_schedule one_month_mortgage (Q 0 dp) None \<and>
     payment_schedule_take 3 one_month_mortgage (Q 0 dp)
       (Some (\<lambda>mortgage. Q 0 (udiv dollars year))) =
     payment_schedule_take 3 one_month_mortgage (Q 0 dp) None" .
  with z one_month_schedule show ?thesis by blast
qed

section \<open>A loan that is already paid off\<close>

lemma q_le_True_q_gt: "q_le a b = Inr True \<Longrightarrow> q_gt a b = Inr False"
  by (auto simp: q_le_def q_gt_def split: if_splits)

text \<open>
  Claim C10, amended. If the base payment is defined (it is computed before the loop is
  entered) and the loan amount is at most 0.10 dollars, the schedule is empty, whatever
  the strategy, and the total cost is the down payment plus the actual closing costs,
  with 0 months.
\<close>

theorem paid_off_total_cost:
  assumes b: "base_payment self n_points = Inr b"
    and small: "q_le (loan_amount self) (Q (1 / 10) dollars) = Inr True"
    and down: "down_payment self = Inr down"
    and closing: "actual_closing_costs self n_points = Inr closing"
    and upfront: "q_add down closing = Inr upfront"
  shows "payment_schedule self n_points strategy = Some ([], None) \<and>
         total_cost self n_points strategy = Some (Inr (upfront, Q 0 month))"
proof -
  have s: "payment_schedule self n_points strategy = Some ([], None)"
    by (simp add: payment_schedule_def b schedule_loop_stop [OF q_le_True_q_gt [OF small]])
  then show ?thesis
    by (simp add: total_cost_def down closing upfront)
qed

text \<open>
  The default mortgage with nothing left to pay, and no points.
\<close>

theorem paid_off_total_cost_witness:
  "base_payment paid_off_mortgage (Q 0 dp) = Inr (Q 0 (udiv dollars month)) \<and>
   q_le (loan_amount paid_off_mortgage) (Q (1 / 10) dollars) = Inr True \<and>
   down_payment paid_off_mortgage = Inr (Q 600000 dollars) \<and>
   actual_closing_costs paid_off_mortgage (Q 0 dp) = Inr (Q 5000 dollars) \<and>
   q_add (Q 600000 dollars) (Q 5000 dollars) = Inr (Q 605000 dollars) \<and>
   payment_schedule paid_off_mortgage (Q 0 dp) None = Some ([], None) \<and>
   total_cost paid_off_mortgage (Q 0 dp) None = Some (Inr (Q 605000 dollars, Q 0 month))"
proof -
  have "(1::real) < (301 / 300) ^ 120"
    by (rule one_less_power) simp_all
  then have c: "(301 / 300 :: real) ^ 120 \<noteq> 1"
    by (rule not_sym [OF less_imp_neq])
  have b: "base_payment paid_off_mortgage (Q 0 dp) = Inr (Q 0 (udiv dollars month))"
    using c by (simp add: paid_off_mortgage_def default_mortgage_def base_payment_def
        n_payments_def effective_rate_def q_div_def q_ceil_def py_pow_def
        q_sub_def q_to_def q_mul_def q_mul_number_def q_div_number_def
        to_root_units_def unit_defs)
  have small: "q_le (loan_amount paid_off_mortgage) (Q (1 / 10) dollars) = Inr True"
    by (simp add: paid_off_mortgage_def q_le_def to_root_units_def unit_defs)
  have down: "down_payment paid_off_mortgage = Inr (Q 600000 dollars)"
    by (simp add: paid_off_mortgage_def default_mortgage_def down_payment_def
        q_sub_def q_to_def unit_defs)
  have closing: "actual_closing_costs paid_off_mortgage (Q 0 dp) = Inr (Q 5000 dollars)"
    by (simp add: paid_off_mortgage_def default_mortgage_def actual_closing_costs_def
        q_add_def q_to_def q_mul_def unit_defs)
  have upfront: "q_add (Q 600000 dollars) (Q 5000 dollars) = Inr (Q 605000 dollars)"
    by (simp add: q_add_def q_to_def unit_defs)
  from paid_off_total_cost [OF b small down closing upfront, of None] b small down closing upfront
  show ?thesis by blast
qed

text \<open>
  As claim C10 is stated, for every number of points, it fails: with 32 points the rate
  of the default mortgage is zero, and the base payment raises before the loop looks at
  the loan amount.
\<close>

theorem paid_off_zero_rate_counterexample:
  "q_le (loan_amount paid_off_mortgage) (Q (1 / 10) dollars) = Inr True \<and>
   effective_rate paid_off_mortgage (Q 32 dp) = Inr (Q 0 (udiv percent year)) \<and>
   payment_schedule paid_off_mortgage (Q 32 dp) None = Some ([], Some ZeroDivisionError) \<and>
   total_cost paid_off_mortgage (Q 32 dp) None = Some (Inl ZeroDivisionError)"
proof -
  have b: "base_payment paid_off_mortgage (Q 32 dp) = Inl ZeroDivisionError"
    by (simp add: paid_off_mortgage_def default_mortgage_def base_payment_def
        n_payments_def effective_rate_def q_div_def q_ceil_def py_pow_def
        q_sub_def q_to_def q_mul_def q_mul_number_def q_div_number_def
        to_root_units_def unit_defs)
  have r: "effective_rate paid_off_mortgage (Q 32 dp) = Inr (Q 0 (udiv percent year))"
    by (simp add: paid_off_mortgage_def default_mortgage_def effective_rate_def
        q_sub_def q_to_def q_mul_def unit_defs)
  have small: "q_le (loan_amount paid_off_mortgage) (Q (1 / 10) dollars) = Inr True"
    by (simp add: paid_off_mortgage_def q_le_def to_root_units_def unit_defs)
  show ?thesis
    by (simp add: small r b payment_schedule_def total_cost_def)
qed

section \<open>The total cost\<close>

lemma sum_from_dollars:
  assumes "\<And>p. p \<in> set ps \<Longrightarrow> units p = dollars" and "units acc = dollars"
  shows "\<exists>s. sum_from acc ps = Inr s \<and> units s = dollars \<and>
           to_root_units s = to_root_units acc + (\<Sum>p\<leftarrow>ps. to_root_units p)"
  using assms
proof (induction ps arbitrary: acc)
  case Nil
  then show ?case by simp
next
  case (Cons p ps)
  have up: "units p = dollars" using Cons.prems(1) by simp
  obtain acc' where a: "q_add acc p = Inr acc'"
    using up Cons.prems(2) by (simp add: q_add_iff)
  then have ua: "units acc' = dollars"
    using Cons.prems(2) by (auto simp: q_add_iff)
  from Cons.IH [OF _ ua] Cons.prems(1)
  obtain s where "sum_from acc' ps = Inr s" "units s = dollars"
    "to_root_units s = to_root_units acc' + (\<Sum>p\<leftarrow>ps. to_root_units p)"
    by auto
  with a q_add_root [OF a] show ?case by simp
qed

text \<open>
  Claim C2. When the schedule ends without an exception and the down payment and the
  closing costs are sums of money, the total cost is a pair: the down payment plus the
  actual closing costs plus the sum of all the payments of the schedule, and the length
  of the schedule in months.
\<close>

theorem total_cost_sum:
  assumes sched: "payment_schedule self n_points strategy = Some (ys, None)"
    and down: "down_payment self = Inr down"
    and closing: "actual_closing_costs self n_points = Inr closing"
    and upfront: "q_add down closing = Inr upfront"
    and money: "dimensionality (units (home_value self)) = dimensionality dollars"
  shows "\<exists>total. total_cost self n_points strategy =
             Some (Inr (total, Q (real (length ys)) month)) \<and>
           units total = units (home_value self) \<and>
           to_root_units total =
             to_root_units down + to_root_units closing + (\<Sum>p\<leftarrow>map snd ys. to_root_units p)"
proof -
  have uu: "units upfront = units (home_value self)"
    using down upfront by (auto simp: down_payment_def q_add_iff q_sub_iff)
  have ru: "to_root_units upfront = to_root_units down + to_root_units closing"
    by (rule q_add_root [OF upfront])
  show ?thesis
  proof (cases ys)
    case Nil
    with sched down closing upfront uu ru show ?thesis
      by (simp add: total_cost_def)
  next
    case (Cons y ys')
    have d: "units p = dollars" if "p \<in> set (map snd ys)" for p
      using that payment_schedule_units [OF sched] by auto
    then have "units (snd y) = dollars" and "\<And>p. p \<in> set (map snd ys') \<Longrightarrow> units p = dollars"
      using Cons by auto
    with sum_from_dollars [of "map snd ys'" "snd y"]
    obtain s where s: "sum_from (snd y) (map snd ys') = Inr s" "units s = dollars"
      "to_root_units s = to_root_units (snd y) + (\<Sum>p\<leftarrow>map snd ys'. to_root_units p)"
      by auto
    obtain total where t: "q_add upfront s = Inr total"
      using s(2) uu money by (simp add: q_add_iff)
    have "units total = units (home_value self)"
      using t uu by (auto simp: q_add_iff)
    moreover have "to_root_units total =
        to_root_units down + to_root_units closing + (\<Sum>p\<leftarrow>map snd ys. to_root_units p)"
      using q_add_root [OF t] ru s(3) Cons by simp
    moreover have "total_cost self n_points strategy =
        Some (Inr (total, Q (real (length ys)) month))"
      using sched down closing upfront s(1) t Cons by (simp add: total_cost_def)
    ultimately show ?thesis by blast
  qed
qed

text \<open>
  The one-month mortgage: 599000 down, 5000 of closing costs and one payment of 1010.
\<close>

theorem total_cost_sum_witness:
  "payment_schedule one_month_mortgage (Q 0 dp) None =
     Some ([(one_month_mortgage\<lparr>loan_amount := Q 0 dollars\<rparr>, Q 1010 dollars)], None) \<and>
   down_payment one_month_mortgage = Inr (Q 599000 dollars) \<and>
   actual_closing_costs one_month_mortgage (Q 0 dp) = Inr (Q 5000 dollars) \<and>
   q_add (Q 599000 dollars) (Q 5000 dollars) = Inr (Q 604000 dollars) \<and>
   (\<exists>total. total_cost one_month_mortgage (Q 0 dp) None =
       Some (Inr (total,
         Q (real (length [(one_month_mortgage\<lparr>loan_amount := Q 0 dollars\<rparr>, Q 1010 dollars)]))
           month)) \<and>
     units total = units (home_value one_month_mortgage) \<and>
     to_root_units total =
       to_root_units (Q 599000 dollars) + to_root_units (Q 5000 dollars) +
       (\<Sum>p\<leftarrow>map snd [(one_month_mortgage\<lparr>loan_amount := Q 0 dollars\<rparr>, Q 1010 dollars)].
          to_root_units p))"
proof -
  have down: "down_payment one_month_mortgage = Inr (Q 599000 dollars)"
    by (simp add: one_month_mortgage_def default_mortgage_def down_payment_def
        q_sub_def q_to_def unit_defs)
  have closing: "actual_closing_costs one_month_mortgage (Q 0 dp) = Inr (Q 5000 dollars)"
    by (simp add: one_month_mortgage_def default_mortgage_def actual_closing_costs_def
        q_add_def q_to_def q_mul_def unit_defs)
  have upfront: "q_add (Q 599000 dollars) (Q 5000 dollars) = Inr (Q 604000 dollars)"
    by (simp add: q_add_def q_to_def unit_defs)
  have money: "dimensionality (units (home_value one_month_mortgage)) = dimensionality dollars"
    by (simp add: one_month_mortgage_def default_mortgage_def)
  from total_cost_sum [OF one_month_schedule down closing upfront money]
    one_month_schedule down closing upfront
  show ?thesis by blast
qed

section \<open>Conservation of the balance\<close>

lemma schedule_step_principal:
  assumes "schedule_step self n s b remaining = Inr (remaining', payment)"
  shows "\<exists>interest principal. interest_on self n remaining = Inr interest \<and>
           q_sub payment interest = Inr principal \<and>
           q_sub (loan_amount remaining) principal = Inr (loan_amount remaining')"
proof -
  from schedule_step_payment [OF assms]
  have p0: "q_add b (q_mul (s remaining) (Q 1 month)) = Inr payment" by simp
  with assms show ?thesis
    by (auto simp: schedule_step_def and_then_Inr_iff)
qed

lemma schedule_loop_principals:
  assumes "schedule_loop self n s b remaining = Some (ys, None)"
  shows "\<exists>ps. principals self n remaining ys = Inr ps \<and> length ps = length ys \<and>
           (\<Sum>p\<leftarrow>ps. to_root_units p) =
             to_root_units (loan_amount remaining) -
             to_root_units (loan_amount (last (remaining # map fst ys)))"
  using assms
proof (induction ys arbitrary: remaining)
  case Nil
  then show ?case by simp
next
  case (Cons y ys)
  from Cons.prems show ?case
  proof (cases rule: schedule_loop_cases)
    case (step remaining' payment ys')
    from step(4) have ys: "ys' = ys" and y: "y = (remaining', payment)" by simp_all
    from schedule_step_principal [OF step(2)] obtain interest principal where
      i: "interest_on self n remaining = Inr interest"
      and p: "q_sub payment interest = Inr principal"
      and l: "q_sub (loan_amount remaining) principal = Inr (loan_amount remaining')"
      by blast
    from Cons.IH [of remaining'] step(3) ys obtain ps where
      ps: "principals self n remaining' ys = Inr ps" and len: "length ps = length ys"
      and sum: "(\<Sum>p\<leftarrow>ps. to_root_units p) =
             to_root_units (loan_amount remaining') -
             to_root_units (loan_amount (last (remaining' # map fst ys)))"
      by auto
    have "principals self n remaining (y # ys) = Inr (principal # ps)"
      using i p ps y by simp
    moreover have "(\<Sum>p\<leftarrow>principal # ps. to_root_units p) =
        to_root_units (loan_amount remaining) -
        to_root_units (loan_amount (last (remaining # map fst (y # ys))))"
      using sum q_sub_root [OF l] y by simp
    ultimately show ?thesis using len by auto
  qed simp_all
qed

text \<open>
  Claim C4. When the schedule ends without an exception, the principals of its steps
  (the payment of the step minus the interest of the step) add up to the original loan
  amount minus the loan amount of the last state yielded (the original one if nothing
  is yielded), in dollars.
\<close>

theorem principal_conservation:
  assumes "payment_schedule self n_points strategy = Some (ys, None)"
  shows "\<exists>ps. principals self n_points self ys = Inr ps \<and> length ps = length ys \<and>
           (\<Sum>p\<leftarrow>ps. to_root_units p) =
             to_root_units (loan_amount self) -
             to_root_units (loan_amount (last (self # map fst ys)))"
  using assms
proof (cases rule: payment_schedule_cases)
  case (loop b)
  from schedule_loop_principals [OF loop(2)] show ?thesis .
qed simp

text \<open>
  The one-month mortgage with 100 dollars more: a principal of 1100 dollars, from 1000
  dollars down to minus 100.
\<close>

theorem principal_conservation_witness:
  "payment_schedule one_month_mortgage (Q 0 dp) (Some hundred_more) =
     Some ([(one_month_mortgage\<lparr>loan_amount := Q (- 100) dollars\<rparr>, Q 1110 dollars)], None) \<and>
   (\<exists>ps. principals one_month_mortgage (Q 0 dp) one_month_mortgage
            [(one_month_mortgage\<lparr>loan_amount := Q (- 100) dollars\<rparr>, Q 1110 dollars)] = Inr ps \<and>
      length ps =
        length [(one_month_mortgage\<lparr>loan_amount := Q (- 100) dollars\<rparr>, Q 1110 dollars)] \<and>
      (\<Sum>p\<leftarrow>ps. to_root_units p) =
        to_root_units (loan_amount one_month_mortgage) -
        to_root_units (loan_amount (last (one_month_mortgage #
          map fst [(one_month_mortgage\<lparr>loan_amount := Q (- 100) dollars\<rparr>, Q 1110 dollars)]))))"
  using one_month_hundred_more principal_conservation [OF one_month_hundred_more]
  by (rule conjI)

section \<open>Paying more each month\<close>

lemma root_one_month: "to_root_units (Q 1 month) = 1"
  by (simp add: to_root_units_def unit_defs)

lemma base_payment_rate:
  assumes "base_payment self n = Inr b"
  shows "\<exists>rate. effective_rate self n = Inr rate \<and> dimensionality (units rate) = (0, - 1, 0)"
  using assms
  by (auto simp: base_payment_def and_then_Inr_iff q_to_iff unit_defs)

lemma interest_on_eq:
  assumes rate: "effective_rate self n = Inr rate"
    and rd: "dimensionality (units rate) = (0, - 1, 0)"
  shows "\<exists>interest. interest_on self n remaining = Inr interest \<and>
           dimensionality (units interest) = dimensionality (units (loan_amount remaining)) \<and>
           to_root_units interest = to_root_units (loan_amount remaining) * to_root_units rate"
proof -
  let ?mr = "Q (to_root_units rate * 100) (udiv percent month)"
  let ?i = "q_mul (q_mul (loan_amount remaining) (Q 1 month)) ?mr"
  have "interest_on self n remaining = Inr ?i"
    by (simp add: interest_on_def rate monthly_rate_eq [OF rd])
  moreover have "dimensionality (units ?i) = dimensionality (units (loan_amount remaining))"
    by (cases "units (loan_amount remaining)") (simp add: q_mul_def unit_defs)
  moreover have "to_root_units ?mr = to_root_units rate"
    by (simp add: to_root_units_def unit_defs)
  then have "to_root_units ?i = to_root_units (loan_amount remaining) * to_root_units rate"
    by (simp add: root_q_mul root_one_month)
  ultimately show ?thesis by blast
qed

lemma schedule_step_Inr:
  assumes rate: "effective_rate self n = Inr rate"
    and rd: "dimensionality (units rate) = (0, - 1, 0)"
    and ub: "units base = dollars"
    and ld: "dimensionality (units (loan_amount remaining)) = dimensionality dollars"
    and sd: "dimensionality (units (s remaining)) = dimensionality (udiv dollars month)"
  shows "\<exists>remaining' payment. schedule_step self n s base remaining = Inr (remaining', payment) \<and>
           dimensionality (units (loan_amount remaining')) = dimensionality dollars \<and>
           to_root_units (loan_amount remaining') =
             to_root_units (loan_amount remaining) * (1 + to_root_units rate) -
             to_root_units base - to_root_units (s remaining)"
proof -
  from interest_on_eq [OF rate rd, of remaining] obtain interest where
    i: "interest_on self n remaining = Inr interest"
    and di: "dimensionality (units interest) = dimensionality (units (loan_amount remaining))"
    and ri: "to_root_units interest = to_root_units (loan_amount remaining) * to_root_units rate"
    by blast
  have "dimensionality (units (q_mul (s remaining) (Q 1 month))) = dimensionality (units base)"
    using sd ub by (cases "units (s remaining)") (simp add: q_mul_def unit_defs)
  then obtain payment where p: "q_add base (q_mul (s remaining) (Q 1 month)) = Inr payment"
    by (simp add: q_add_iff)
  then have up: "units payment = dollars"
    using ub by (auto simp: q_add_iff)
  have rp: "to_root_units payment = to_root_units base + to_root_units (s remaining)"
    using q_add_root [OF p] by (simp add: root_q_mul root_one_month)
  obtain principal where pr: "q_sub payment interest = Inr principal"
    using di ld up by (simp add: q_sub_iff)
  then have upr: "units principal = dollars"
    using up by (auto simp: q_sub_iff)
  obtain exceeds where ov: "q_gt principal (loan_amount remaining) = Inr exceeds"
    using upr ld by (simp add: q_gt_def)
  have restored: "q_add principal interest = Inr payment"
    using pr by (cases payment) (auto simp: q_sub_iff q_add_iff)
  obtain la where la: "q_sub (loan_amount remaining) principal = Inr la"
    using upr ld by (simp add: q_sub_iff)
  then have "units la = units (loan_amount remaining)"
    by (auto simp: q_sub_iff)
  with ld have dla: "dimensionality (units la) = dimensionality dollars" by simp
  have "to_root_units la = to_root_units (loan_amount remaining) * (1 + to_root_units rate) -
          to_root_units base - to_root_units (s remaining)"
    using q_sub_root [OF la] q_sub_root [OF pr] rp ri by (simp add: algebra_simps)
  moreover have "schedule_step self n s base remaining = Inr (self\<lparr>loan_amount := la\<rparr>, payment)"
    using i p pr ov restored la by (simp add: schedule_step_def)
  ultimately show ?thesis using dla by auto
qed

lemma schedule_loop_overpaid:
  assumes rate: "effective_rate self n = Inr rate"
    and rd: "dimensionality (units rate) = (0, - 1, 0)"
    and r: "- 1 \<le> to_root_units rate"
    and ub: "units base = dollars"
    and s0: "\<And>m. dimensionality (units (s0 m)) = dimensionality (udiv dollars month)"
    and s1: "\<And>m. dimensionality (units (s1 m)) = dimensionality (udiv dollars month)"
    and le: "\<And>m m'. to_root_units (s0 m) \<le> to_root_units (s1 m')"
    and run: "schedule_loop self n s0 base remaining0 = Some (ys0, None)"
    and ld: "dimensionality (units (loan_amount remaining1)) = dimensionality dollars"
    and bal: "to_root_units (loan_amount remaining1) \<le> to_root_units (loan_amount remaining0)"
  shows "\<exists>ys1. schedule_loop self n s1 base remaining1 = Some (ys1, None) \<and>
           length ys1 \<le> length ys0"
  using run ld bal
proof (induction ys0 arbitrary: remaining0 remaining1)
  case Nil
  from Nil.prems(1) have "q_gt (loan_amount remaining0) (Q (1 / 10) dollars) = Inr False"
    by (cases rule: schedule_loop_cases) simp_all
  with Nil.prems(2,3) have "q_gt (loan_amount remaining1) (Q (1 / 10) dollars) = Inr False"
    by (auto simp: q_gt_def split: if_splits)
  from schedule_loop_stop [OF this] show ?case by simp
next
  case (Cons y ys)
  from Cons.prems(1) show ?case
  proof (cases rule: schedule_loop_cases)
    case (step remaining0' payment0 ys')
    from step(4) have ys: "ys' = ys" by simp
    from step(1) have ld0: "dimensionality (units (loan_amount remaining0)) = dimensionality dollars"
      by (auto simp: q_gt_def split: if_splits)
    from schedule_step_Inr [where s = s0 and remaining = remaining0, OF rate rd ub ld0 s0] step(2)
    have v0: "to_root_units (loan_amount remaining0') =
             to_root_units (loan_amount remaining0) * (1 + to_root_units rate) -
             to_root_units base - to_root_units (s0 remaining0)"
      by auto
    show ?thesis
    proof (cases "to_root_units (loan_amount remaining1) > to_root_units (Q (1 / 10) dollars)")
      case False
      with Cons.prems(2) have "q_gt (loan_amount remaining1) (Q (1 / 10) dollars) = Inr False"
        by (simp add: q_gt_def)
      from schedule_loop_stop [OF this] show ?thesis by simp
    next
      case True
      with Cons.prems(2) have c: "q_gt (loan_amount remaining1) (Q (1 / 10) dollars) = Inr True"
        by (simp add: q_gt_def)
      from schedule_step_Inr [where s = s1 and remaining = remaining1, OF rate rd ub Cons.prems(2) s1]
      obtain remaining1' payment1 where
        st: "schedule_step self n s1 base remaining1 = Inr (remaining1', payment1)"
        and ld1: "dimensionality (units (loan_amount remaining1')) = dimensionality dollars"
        and v1: "to_root_units (loan_amount remaining1') =
             to_root_units (loan_amount remaining1) * (1 + to_root_units rate) -
             to_root_units base - to_root_units (s1 remaining1)"
        by blast
      have "to_root_units (loan_amount remaining1) * (1 + to_root_units rate) \<le>
            to_root_units (loan_amount remaining0) * (1 + to_root_units rate)"
        using Cons.prems(3) r by (intro mult_right_mono) simp_all
      with v0 v1 le [of remaining0 remaining1]
      have "to_root_units (loan_amount remaining1') \<le> to_root_units (loan_amount remaining0')"
        by simp
      from Cons.IH [OF _ ld1 this] step(3) ys
      obtain ys1 where "schedule_loop self n s1 base remaining1' = Some (ys1, None)"
        and "length ys1 \<le> length ys"
        by auto
      then show ?thesis
        by (simp add: schedule_loop_step [OF c st])
    qed
  qed simp_all
qed

text \<open>
  Claim C7, amended. When the schedule without a strategy ends without an exception and
  the effective rate is at least minus 100 percent per month, a constant strategy of a
  strictly positive amount gives a schedule that ends as well and has at most as many
  steps.
\<close>

theorem overpayment_no_longer:
  assumes base: "payment_schedule self n_points None = Some (ys0, None)"
    and rate: "effective_rate self n_points = Inr rate"
    and r: "- 1 \<le> to_root_units rate"
    and xd: "dimensionality (units x) = dimensionality (udiv dollars month)"
    and xp: "0 < magnitude x"
  shows "\<exists>ys1. payment_schedule self n_points (Some (\<lambda>mortgage. x)) = Some (ys1, None) \<and>
           length ys1 \<le> length ys0"
  using base
proof (cases rule: payment_schedule_cases)
  case (loop b)
  let ?zero = "\<lambda>mortgage::Mortgage. Q 0 (udiv dollars month)"
  from loop(2) have run: "schedule_loop self n_points ?zero (q_mul b (Q 1 month)) self =
      Some (ys0, None)"
    by simp
  from base_payment_rate [OF loop(1)] rate
  have rd: "dimensionality (units rate) = (0, - 1, 0)" by auto
  have ub: "units (q_mul b (Q 1 month)) = dollars"
    by (simp add: q_mul_def base_payment_units [OF loop(1)] unit_defs)
  have ld: "dimensionality (units (loan_amount self)) = dimensionality dollars"
    using run by (cases rule: schedule_loop_cases) (auto simp: q_gt_def split: if_splits)
  have le: "to_root_units (?zero m) \<le> to_root_units ((\<lambda>mortgage. x) m')" for m m' :: Mortgage
    using to_root_units_nonneg [of x] xp by (simp add: to_root_units_def)
  from schedule_loop_overpaid [where ?s0.0 = ?zero and ?s1.0 = "\<lambda>mortgage. x",
      OF rate rd r ub _ xd le run ld]
  obtain ys1 where "schedule_loop self n_points (\<lambda>mortgage. x) (q_mul b (Q 1 month)) self =
      Some (ys1, None)" and "length ys1 \<le> length ys0"
    by auto
  then show ?thesis
    using loop(1) by (simp add: payment_schedule_def)
qed simp

text \<open>
  The one-month mortgage, without a strategy and with 100 dollars more.
\<close>

theorem overpayment_no_longer_witness:
  "payment_schedule one_month_mortgage (Q 0 dp) None =
     Some ([(one_month_mortgage\<lparr>loan_amount := Q 0 dollars\<rparr>, Q 1010 dollars)], None) \<and>
   effective_rate one_month_mortgage (Q 0 dp) = Inr (Q 12 (udiv percent year)) \<and>
   - 1 \<le> to_root_units (Q 12 (udiv percent year)) \<and>
   0 < magnitude (Q 100 (udiv dollars month)) \<and>
   (\<exists>ys1. payment_schedule one_month_mortgage (Q 0 dp)
             (Some (\<lambda>mortgage. Q 100 (udiv dollars month))) = Some (ys1, None) \<and>
      length ys1 \<le>
        length [(one_month_mortgage\<lparr>loan_amount := Q 0 dollars\<rparr>, Q 1010 dollars)])"
proof -
  have rate: "effective_rate one_month_mortgage (Q 0 dp) = Inr (Q 12 (udiv percent year))"
    by (simp add: one_month_mortgage_def default_mortgage_def effective_rate_def
        q_sub_def q_to_def q_mul_def unit_defs)
  have r: "- 1 \<le> to_root_units (Q 12 (udiv percent year))"
    by (simp add: to_root_units_def unit_defs)
  have xd: "dimensionality (units (Q 100 (udiv dollars month))) =
      dimensionality (udiv dollars month)"
    by simp
  have xp: "0 < magnitude (Q 100 (udiv dollars month))"
    by simp
  from overpayment_no_longer [OF one_month_schedule rate r xd xp] one_month_schedule rate r xp
  show ?thesis by blast
qed

text \<open>
  As claim C7 is stated, with strictly fewer steps, it fails: the one-month mortgage is
  paid in one step without a strategy, and in one step with 100 dollars more.
\<close>

theorem overpayment_same_length_counterexample:
  "payment_schedule one_month_mortgage (Q 0 dp) None =
     Some ([(one_month_mortgage\<lparr>loan_amount := Q 0 dollars\<rparr>, Q 1010 dollars)], None) \<and>
   payment_schedule one_month_mortgage (Q 0 dp) (Some hundred_more) =
     Some ([(one_month_mortgage\<lparr>loan_amount := Q (- 100) dollars\<rparr>, Q 1110 dollars)], None) \<and>
   \<not> length [(one_month_mortgage\<lparr>loan_amount := Q (- 100) dollars\<rparr>, Q 1110 dollars)] <
       length [(one_month_mortgage\<lparr>loan_amount := Q 0 dollars\<rparr>, Q 1010 dollars)]"
  using one_month_schedule one_month_hundred_more by simp

text \<open>
  The bound on the rate is needed. With 28832 points the rate of the default mortgage is
  minus 300 percent per month; the balance of the two-month loan then changes sign at
  each step, the schedule without a strategy has two steps, and the schedule with one
  dollar more each month has four.
\<close>

lemma overpayment_longer_below_minus_one:
  "effective_rate two_month_mortgage (Q 28832 dp) = Inr (Q (- 3600) (udiv percent year)) \<and>
   map_option (\<lambda>(ys, e). (map (\<lambda>(m, p). (loan_amount m, p)) ys, e))
     (payment_schedule two_month_mortgage (Q 28832 dp) None) =
   Some ([(Q 2000 dollars, Q (- 4000) dollars), (Q 0 dollars, Q (- 4000) dollars)], None) \<and>
   map_option (\<lambda>(ys, e). (map (\<lambda>(m, p). (loan_amount m, p)) ys, e))
     (payment_schedule two_month_mortgage (Q 28832 dp) (Some one_more)) =
   Some ([(Q 1999 dollars, Q (- 3999) dollars), (Q 1 dollars, Q (- 3999) dollars),
          (Q 3997 dollars, Q (- 3999) dollars), (Q (- 3995) dollars, Q (- 3999) dollars)],
         None)"
  by (simp add: two_month_mortgage_def default_mortgage_def one_more_def
        payment_schedule_def schedule_loop.simps base_payment_def
        n_payments_def q_div_def q_ceil_def py_pow_def q_mul_number_def q_div_number_def
        eval_defs unit_defs)

end
